theory Spec2Isabelle
  imports Main "HOL-Library.Sublist"
begin

section \<open>JavaScript values\<close>

text \<open>
  The values that flow through \<^verbatim>\<open>src/windshaft/map-base.js\<close>: Backbone attributes, the
  backend's JSON responses, request payloads and params. Numbers are integers only
  (fractions are outside this model). An object is an association list in insertion
  order, holding its own properties; the members it inherits from a built-in prototype
  are the subject of a later subsection.
\<close>

datatype jsval =
    Undefined
  | Null
  | JBool bool
  | JNum int
  | JStr string
  | JArr "jsval list"
  | JObj "(string \<times> jsval) list"

text \<open>
  The engine's own failure (reading a property of \<^verbatim>\<open>undefined\<close> or \<^verbatim>\<open>null\<close>, calling
  what is not a function), and an exception of the program or of a collaborator, which
  carries the value thrown: any value can be, \<^verbatim>\<open>undefined\<close> and \<^verbatim>\<open>null\<close> included.
  \<^verbatim>\<open>throw new Error(text)\<close> throws an object whose \<^verbatim>\<open>message\<close> is the text.
\<close>

datatype js_error = TypeError

datatype exn = Exn jsval

definition new_Error :: "string \<Rightarrow> exn" where
  "new_Error text_of_message = Exn (JObj [(''message'', JStr text_of_message)])"

text \<open>ToBoolean, which \<^verbatim>\<open>if (v)\<close>, \<^verbatim>\<open>v && w\<close> and \<^verbatim>\<open>v || w\<close> test, and \<^verbatim>\<open>a || b\<close> itself.\<close>

fun truthy :: "jsval \<Rightarrow> bool" where
  "truthy Undefined = False"
| "truthy Null = False"
| "truthy (JBool b) = b"
| "truthy (JNum n) = (n \<noteq> 0)"
| "truthy (JStr s) = (s \<noteq> [])"
| "truthy (JArr xs) = True"
| "truthy (JObj kvs) = True"

definition js_or :: "jsval \<Rightarrow> jsval \<Rightarrow> jsval" where
  "js_or a b = (if truthy a then a else b)"

subsection \<open>Decimal numerals and ToString\<close>

definition digit_char :: "nat \<Rightarrow> char" where
  "digit_char d = ''0123456789'' ! d"

function string_of_nat :: "nat \<Rightarrow> string" where
  "string_of_nat n =
     (if n < 10 then [digit_char n] else string_of_nat (n div 10) @ [digit_char (n mod 10)])"
  by pat_completeness auto
termination
  by (relation "measure id") auto

declare string_of_nat.simps [simp del]

definition string_of_int :: "int \<Rightarrow> string" where
  "string_of_int i = (if i < 0 then CHR ''-'' # string_of_nat (nat (- i)) else string_of_nat (nat i))"

fun join_strings :: "string \<Rightarrow> string list \<Rightarrow> string" where
  "join_strings sep [] = []"
| "join_strings sep [s] = s"
| "join_strings sep (s # t # ss) = s @ sep @ join_strings sep (t # ss)"

text \<open>
  ToString, and the element conversion of \<^verbatim>\<open>Array.prototype.join\<close>, which turns
  \<^verbatim>\<open>undefined\<close> and \<^verbatim>\<open>null\<close> into the empty string.
\<close>

fun to_string :: "jsval \<Rightarrow> string"
  and join_elems :: "jsval list \<Rightarrow> string list" where
  "to_string Undefined = ''undefined''"
| "to_string Null = ''null''"
| "to_string (JBool b) = (if b then ''true'' else ''false'')"
| "to_string (JNum n) = string_of_int n"
| "to_string (JStr s) = s"
| "to_string (JArr xs) = join_strings '','' (join_elems xs)"
| "to_string (JObj kvs) = ''[object Object]''"
| "join_elems [] = []"
| "join_elems (x # xs) =
     (if x = Undefined \<or> x = Null then [] else to_string x) # join_elems xs"


subsection \<open>Property access\<close>

fun put :: "string \<Rightarrow> jsval \<Rightarrow> (string \<times> jsval) list \<Rightarrow> (string \<times> jsval) list" where
  "put k v [] = [(k, v)]"
| "put k v ((k', v') # kvs) = (if k = k' then (k, v) # kvs else (k', v') # put k v kvs)"

definition lookup :: "(string \<times> jsval) list \<Rightarrow> string \<Rightarrow> jsval" where
  "lookup kvs k = (case map_of kvs k of None \<Rightarrow> Undefined | Some v \<Rightarrow> v)"

definition nth_or_undefined :: "jsval list \<Rightarrow> int \<Rightarrow> jsval" where
  "nth_or_undefined xs i = (if 0 \<le> i \<and> i < int (length xs) then xs ! nat i else Undefined)"

text \<open>The array index a string key denotes, if it is the canonical numeral of one.\<close>

definition index_of_key :: "nat \<Rightarrow> string \<Rightarrow> nat option" where
  "index_of_key n k = find (\<lambda>i. string_of_nat i = k) [0..<n]"

text \<open>
  \<^verbatim>\<open>v[k]\<close> on a value that is neither \<^verbatim>\<open>undefined\<close> nor \<^verbatim>\<open>null\<close>: own
  properties of objects, elements and \<^verbatim>\<open>length\<close> of arrays and strings.
\<close>

fun member :: "jsval \<Rightarrow> jsval \<Rightarrow> jsval" where
  "member (JObj kvs) k = lookup kvs (to_string k)"
| "member (JArr xs) (JNum i) = nth_or_undefined xs i"
| "member (JArr xs) k =
     (if to_string k = ''length'' then JNum (int (length xs))
      else case index_of_key (length xs) (to_string k) of
             None \<Rightarrow> Undefined
           | Some i \<Rightarrow> xs ! i)"
| "member (JStr s) (JNum i) =
     (if 0 \<le> i \<and> i < int (length s) then JStr [s ! nat i] else Undefined)"
| "member (JStr s) k =
     (if to_string k = ''length'' then JNum (int (length s))
      else case index_of_key (length s) (to_string k) of
             None \<Rightarrow> Undefined
           | Some i \<Rightarrow> JStr [s ! i])"
| "member v k = Undefined"

text \<open>\<^verbatim>\<open>v[k]\<close> in general: reading a property of \<^verbatim>\<open>undefined\<close> or \<^verbatim>\<open>null\<close> throws.\<close>

definition get_member :: "jsval \<Rightarrow> jsval \<Rightarrow> js_error + jsval" where
  "get_member v k = (if v = Undefined \<or> v = Null then Inl TypeError else Inr (member v k))"

definition get_prop :: "jsval \<Rightarrow> string \<Rightarrow> js_error + jsval" where
  "get_prop v name = get_member v (JStr name)"

subsection \<open>Inherited members\<close>













subsection \<open>Strings: \<^verbatim>\<open>indexOf\<close> and \<^verbatim>\<open>replace\<close> with a string pattern\<close>

text \<open>The text before and after the first occurrence of a pattern, if there is one.\<close>

fun split_first :: "string \<Rightarrow> string \<Rightarrow> (string \<times> string) option" where
  "split_first pat [] = (if pat = [] then Some ([], []) else None)"
| "split_first pat (c # cs) =
     (if prefix pat (c # cs) then Some ([], drop (length pat) (c # cs))
      else case split_first pat cs of
             None \<Rightarrow> None
           | Some (pre, post) \<Rightarrow> Some (c # pre, post))"

definition indexOf :: "string \<Rightarrow> string \<Rightarrow> int" where
  "indexOf s pat = (case split_first pat s of None \<Rightarrow> - 1 | Some (pre, post) \<Rightarrow> int (length pre))"



subsection \<open>Underscore helpers\<close>

text \<open>
  \<^verbatim>\<open>_.map\<close>, \<^verbatim>\<open>_.each\<close> and \<^verbatim>\<open>_.reduce\<close> walk the elements of anything with a
  numeric \<^verbatim>\<open>length\<close> in index order, the own properties of any other object, and
  nothing of a primitive. \<open>us_entries\<close> lists the (key, value) pairs they visit.
\<close>

definition us_entries :: "jsval \<Rightarrow> (jsval \<times> jsval) list" where
  "us_entries v =
     (case v of
        JArr xs \<Rightarrow> zip (map (\<lambda>i. JNum (int i)) [0..<length xs]) xs
      | JStr s \<Rightarrow> zip (map (\<lambda>i. JNum (int i)) [0..<length s]) (map (\<lambda>c. JStr [c]) s)
      | JObj kvs \<Rightarrow>
          (case lookup kvs ''length'' of
             JNum n \<Rightarrow>
               if 0 \<le> n \<and> n \<le> 2 ^ 53 - 1
               then map (\<lambda>i. (JNum (int i), lookup kvs (string_of_nat i))) [0..<nat n]
               else map (\<lambda>(k, x). (JStr k, x)) kvs
           | _ \<Rightarrow> map (\<lambda>(k, x). (JStr k, x)) kvs)
      | _ \<Rightarrow> [])"

definition us_values :: "jsval \<Rightarrow> jsval list" where
  "us_values v = map snd (us_entries v)"


text \<open>\<^verbatim>\<open>_.extend(dst, src)\<close> for an object \<open>dst\<close>: primitives and \<^verbatim>\<open>null\<close> contribute nothing.\<close>

definition us_extend :: "(string \<times> jsval) list \<Rightarrow> jsval \<Rightarrow> (string \<times> jsval) list" where
  "us_extend dst src =
     (case src of
        JObj kvs \<Rightarrow> foldl (\<lambda>acc (k, v). put k v acc) dst kvs
      | JArr xs \<Rightarrow> foldl (\<lambda>acc (k, v). put k v acc) dst (zip (map string_of_nat [0..<length xs]) xs)
      | _ \<Rightarrow> dst)"

definition us_isEmpty :: "jsval \<Rightarrow> bool" where
  "us_isEmpty v =
     (case v of JArr xs \<Rightarrow> xs = [] | JStr s \<Rightarrow> s = [] | JObj kvs \<Rightarrow> kvs = [] | _ \<Rightarrow> True)"

text \<open>
  \<^verbatim>\<open>===\<close>: primitives compare by value; an array or an object is equal only to itself,
  and a value read from the stored metadata is never the caller's own object.
\<close>

fun strict_equals :: "jsval \<Rightarrow> jsval \<Rightarrow> bool" where
  "strict_equals (JArr xs) w = False"
| "strict_equals (JObj kvs) w = False"
| "strict_equals v w = (v = w)"

section \<open>Collaborators of \<^verbatim>\<open>WindshaftMap\<close>\<close>

text \<open>
  \<^verbatim>\<open>WindshaftError\<close> is the class of \<^verbatim>\<open>./error\<close>, whose source is not at hand: a
  normalized error is the constructor applied to its argument, which it keeps whole.
\<close>

datatype windshaft_error = WindshaftError jsval

text \<open>A function passed in by the caller, known by a number.\<close>

type_synonym callback = nat

text \<open>
  The \<^verbatim>\<open>options\<close> argument of \<^verbatim>\<open>createInstance\<close> and the \<^verbatim>\<open>Request\<close> of
  \<^verbatim>\<open>./request\<close> built from it, a plain holder of its three constructor arguments.
\<close>

record request_options =
  success :: "callback option"
  error :: "callback option"
  sourceId :: jsval
  forceFetch :: jsval

record request =
  payload :: jsval
  params :: jsval
  options :: request_options

text \<open>
  A member of the dataviews collection: its \<^verbatim>\<open>filter\<close>, if it has one, answers
  \<^verbatim>\<open>isEmpty()\<close> and \<^verbatim>\<open>toJSON()\<close>, and either call may throw.
\<close>

record dataview_filter =
  filter_isEmpty :: "exn + bool"
  filter_toJSON :: "exn + jsval"

record dataview =
  dataview_filter :: "dataview_filter option"

subsection \<open>The request tracker\<close>

text \<open>
  Modelled from the spec: the \<^verbatim>\<open>RequestTracker\<close> of \<^verbatim>\<open>./request-tracker\<close> and the
  fingerprint of a request are missing from the sources. The tracker keeps one record
  per fingerprint, oldest first, with an occurrence count and the latest response;
  \<open>canBePerformed\<close> is false iff the count has reached the instantiation limit;
  \<open>record_attempt\<close> increments the count (a record starts at 1), stores the response
  and evicts the oldest fingerprints once there are more than \<open>cap\<close> of them. The
  fingerprint function itself is a parameter \<open>fp\<close> of everything that uses it.
\<close>

record request_record =
  fingerprint :: string
  occurrenceCount :: nat
  lastResponse :: jsval

record request_tracker =
  records :: "request_record list"
  instantiationLimit :: nat
  cap :: nat

text \<open>
  Modelled from the spec: \<^verbatim>\<open>new RequestTracker(limit)\<close>, an empty record set; the bound
  on distinct fingerprints is configured apart from the limit.
\<close>

definition new_tracker :: "nat \<Rightarrow> nat \<Rightarrow> request_tracker" where
  "new_tracker limit c = \<lparr>records = [], instantiationLimit = limit, cap = c\<rparr>"

text \<open>
  Modelled from the spec: the occurrence count of a fingerprint, 0 when it has no record,
  and \<open>canBePerformed\<close>, false iff that count is already at or above the limit.
\<close>

definition occurrences :: "request_tracker \<Rightarrow> string \<Rightarrow> nat" where
  "occurrences t f =
     (case find (\<lambda>r. fingerprint r = f) (records t) of
        None \<Rightarrow> 0
      | Some r \<Rightarrow> occurrenceCount r)"

definition canBePerformed :: "request_tracker \<Rightarrow> string \<Rightarrow> bool" where
  "canBePerformed t f = (\<not> instantiationLimit t \<le> occurrences t f)"

text \<open>
  Modelled from the spec: \<open>record\<close>, named \<open>record_attempt\<close> here, with the eviction of
  the oldest fingerprints once the distinct-fingerprint count exceeds the bound.
\<close>

definition evict :: "nat \<Rightarrow> request_record list \<Rightarrow> request_record list" where
  "evict c rs = drop (length rs - c) rs"

definition record_attempt :: "request_tracker \<Rightarrow> string \<Rightarrow> jsval \<Rightarrow> request_tracker" where
  "record_attempt t f response =
     (let rs = records t;
          rs' = (if f \<in> set (map fingerprint rs)
                 then map (\<lambda>r. if fingerprint r = f
                                then r\<lparr>occurrenceCount := Suc (occurrenceCount r),
                                       lastResponse := response\<rparr>
                                else r) rs
                 else rs @ [\<lparr>fingerprint = f, occurrenceCount = 1, lastResponse = response\<rparr>])
      in t\<lparr>records := evict (cap t) rs'\<rparr>)"

section \<open>The model \<^verbatim>\<open>WindshaftMap\<close>\<close>

text \<open>
  Every call the model makes on a collaborator, on a caller's callback or on its own
  Backbone machinery, in the order the calls are made.
\<close>

datatype event =
    InstantiateMap jsval jsval
  | TrackRequest jsval jsval jsval
  | SetAttributes jsval
  | UpdateModels "(string \<times> jsval) list" jsval jsval
  | Trigger string
  | SetErrors "windshaft_error list"
  | LogError "jsval list"
  | CallSuccess callback
  | CallError callback

record windshaft_map =
  attributes :: "(string \<times> jsval) list"
  requestTracker :: request_tracker
  effects :: "event list"

definition emit :: "event \<Rightarrow> windshaft_map \<Rightarrow> windshaft_map" where
  "emit e m = m\<lparr>effects := effects m @ [e]\<rparr>"

text \<open>The max number of times the same map can be instantiated.\<close>

definition MAP_INSTANTIATION_LIMIT :: nat where
  "MAP_INSTANTIATION_LIMIT = 3"

subsection \<open>Backbone's \<^verbatim>\<open>get\<close> and \<^verbatim>\<open>set\<close>\<close>

definition get :: "windshaft_map \<Rightarrow> string \<Rightarrow> jsval" where
  "get m k = lookup (attributes m) k"

text \<open>
  \<^verbatim>\<open>model.set(v)\<close> assigns each attribute that \<open>v\<close> names and leaves every other
  attribute as it was; \<^verbatim>\<open>set(undefined)\<close> and \<^verbatim>\<open>set(null)\<close> do nothing, and any other
  primitive is taken as the name of one attribute, set to \<^verbatim>\<open>undefined\<close>.
\<close>

definition set_attributes :: "jsval \<Rightarrow> (string \<times> jsval) list \<Rightarrow> (string \<times> jsval) list" where
  "set_attributes v attrs =
     (case v of
        Undefined \<Rightarrow> attrs
      | Null \<Rightarrow> attrs
      | JObj kvs \<Rightarrow> us_extend attrs v
      | JArr xs \<Rightarrow> us_extend attrs v
      | _ \<Rightarrow> put (to_string v) Undefined attrs)"

definition set_model :: "jsval \<Rightarrow> windshaft_map \<Rightarrow> windshaft_map" where
  "set_model v m = emit (SetAttributes v) (m\<lparr>attributes := set_attributes v (attributes m)\<rparr>)"

subsection \<open>\<^verbatim>\<open>initialize\<close>\<close>

record client =
  urlTemplate :: jsval
  userName :: jsval

record initialize_options =
  client :: "client option"
  layersCollection :: bool
  dataviewsCollection :: bool
  analysisCollection :: bool
  modelUpdater :: bool

text \<open>
  \<open>attrs\<close> are the attributes the constructor was given; \<open>c\<close> is the tracker's bound
  on distinct fingerprints, which the source does not pass.
\<close>

definition initialize :: "nat \<Rightarrow> (string \<times> jsval) list \<Rightarrow> initialize_options \<Rightarrow> exn + windshaft_map" where
  "initialize c attrs opts =
     (case client opts of
        None \<Rightarrow> Inl (new_Error ''client option is required'')
      | Some cl \<Rightarrow>
          if \<not> layersCollection opts then Inl (new_Error ''layersCollection option is required'')
          else if \<not> dataviewsCollection opts then Inl (new_Error ''dataviewsCollection option is required'')
          else if \<not> analysisCollection opts then Inl (new_Error ''analysisCollection option is required'')
          else if \<not> modelUpdater opts then Inl (new_Error ''modelUpdater option is required'')
          else Inr \<lparr>attributes = put ''userName'' (userName cl) (put ''urlTemplate'' (urlTemplate cl) attrs),
                    requestTracker = new_tracker MAP_INSTANTIATION_LIMIT c,
                    effects = []\<rparr>)"

subsection \<open>Building and sending a request\<close>

definition getParams :: "windshaft_map \<Rightarrow> (string \<times> jsval) list" where
  "getParams m =
     (let params = [(''stat_tag'', get m ''statTag'')]
      in if truthy (get m ''apiKey'') then put ''api_key'' (get m ''apiKey'') params
         else if truthy (get m ''authToken'') then put ''auth_token'' (get m ''authToken'') params
         else params)"

text \<open>One step of the reduce over the dataviews collection; \<open>filters\<close> is the accumulator.\<close>

definition filter_step :: "(string \<times> jsval) list \<Rightarrow> dataview \<Rightarrow> exn + (string \<times> jsval) list" where
  "filter_step filters dv =
     (case dataview_filter dv of
        None \<Rightarrow> Inr filters
      | Some f \<Rightarrow>
          (case filter_isEmpty f of
             Inl e \<Rightarrow> Inl e
           | Inr True \<Rightarrow> Inr filters
           | Inr False \<Rightarrow>
               (let filters' = put ''dataviews'' (js_or (lookup filters ''dataviews'') (JObj [])) filters
                in case filter_toJSON f of
                     Inl e \<Rightarrow> Inl e
                   | Inr json \<Rightarrow>
                       Inr (case lookup filters' ''dataviews'' of
                              JObj bucket \<Rightarrow> put ''dataviews'' (JObj (us_extend bucket json)) filters'
                            | _ \<Rightarrow> filters'))))"

fun reduce_filters :: "(string \<times> jsval) list \<Rightarrow> dataview list \<Rightarrow> exn + (string \<times> jsval) list" where
  "reduce_filters filters [] = Inr filters"
| "reduce_filters filters (dv # dvs) =
     (case filter_step filters dv of
        Inl e \<Rightarrow> Inl e
      | Inr filters' \<Rightarrow> reduce_filters filters' dvs)"

definition getFilterParamFromDataviews :: "dataview list \<Rightarrow> exn + (string \<times> jsval) list" where
  "getFilterParamFromDataviews dataviews = reduce_filters [] dataviews"

text \<open>
  The part of \<^verbatim>\<open>createInstance\<close> before the tracker is asked. \<open>toJSON\<close> is what the
  subclass's \<^verbatim>\<open>toJSON()\<close> does: it returns the payload or throws (the base class's own
  always throws).
\<close>

definition build_request ::
  "exn + jsval \<Rightarrow> dataview list \<Rightarrow> request_options \<Rightarrow> bool \<Rightarrow> windshaft_map \<Rightarrow> exn + request" where
  "build_request toJSON dataviews opts includeFilters m =
     (case toJSON of
        Inl e \<Rightarrow> Inl e
      | Inr pl \<Rightarrow>
          (let ps = getParams m
           in if includeFilters
              then (case getFilterParamFromDataviews dataviews of
                      Inl e \<Rightarrow> Inl e
                    | Inr filters \<Rightarrow>
                        Inr \<lparr>payload = pl,
                             params = JObj (if \<not> us_isEmpty (JObj filters)
                                            then put ''filters'' (JObj filters) ps else ps),
                             options = opts\<rparr>)
              else Inr \<lparr>payload = pl, params = JObj ps, options = opts\<rparr>))"

definition base_toJSON :: "exn + jsval" where
  "base_toJSON = Inl (new_Error ''Subclasses of windshaft/map-base must implement .toJSON'')"

definition canPerformRequest :: "(jsval \<Rightarrow> jsval \<Rightarrow> string) \<Rightarrow> windshaft_map \<Rightarrow> request \<Rightarrow> bool" where
  "canPerformRequest fp m req = canBePerformed (requestTracker m) (fp (payload req) (params req))"

definition trackRequest :: "(jsval \<Rightarrow> jsval \<Rightarrow> string) \<Rightarrow> request \<Rightarrow> jsval \<Rightarrow> windshaft_map \<Rightarrow> windshaft_map" where
  "trackRequest fp req response m =
     emit (TrackRequest (payload req) (params req) response)
       (m\<lparr>requestTracker := record_attempt (requestTracker m) (fp (payload req) (params req)) response\<rparr>)"

text \<open>\<^verbatim>\<open>options.success && options.success(this)\<close> and \<^verbatim>\<open>options.error && options.error()\<close>.\<close>

definition call_success :: "request_options \<Rightarrow> windshaft_map \<Rightarrow> windshaft_map" where
  "call_success opts m = (case success opts of None \<Rightarrow> m | Some cb \<Rightarrow> emit (CallSuccess cb) m)"

definition call_error :: "request_options \<Rightarrow> windshaft_map \<Rightarrow> windshaft_map" where
  "call_error opts m = (case error opts of None \<Rightarrow> m | Some cb \<Rightarrow> emit (CallError cb) m)"

definition getErrorsFromResponse :: "jsval \<Rightarrow> js_error + windshaft_error list" where
  "getErrorsFromResponse response =
     (case get_prop response ''errors_with_context'' of
        Inl e \<Rightarrow> Inl e
      | Inr ewc \<Rightarrow>
          if truthy ewc then Inr (map WindshaftError (us_values ewc))
          else (case get_prop response ''errors'' of
                  Inl e \<Rightarrow> Inl e
                | Inr errs \<Rightarrow>
                    if truthy errs
                    then (case get_member errs (JNum 0) of
                            Inl e \<Rightarrow> Inl e
                          | Inr first \<Rightarrow> Inr [WindshaftError (JObj [(''message'', first)])])
                    else Inr []))"

text \<open>
  \<^verbatim>\<open>_performRequest\<close> hands the request to the client and returns; the two functions
  after it are the \<^verbatim>\<open>success\<close> and \<^verbatim>\<open>error\<close> closures it passes, run when the client
  calls back with the backend's response.
\<close>

definition performRequest :: "request \<Rightarrow> windshaft_map \<Rightarrow> windshaft_map" where
  "performRequest req m = emit (InstantiateMap (payload req) (params req)) m"

definition on_success :: "(jsval \<Rightarrow> jsval \<Rightarrow> string) \<Rightarrow> request \<Rightarrow> jsval \<Rightarrow> windshaft_map \<Rightarrow> windshaft_map" where
  "on_success fp req response m =
     (let m1 = trackRequest fp req response m;
          m2 = set_model response m1;
          m3 = emit (UpdateModels (attributes m2) (sourceId (options req)) (forceFetch (options req))) m2;
          m4 = emit (Trigger ''instanceCreated'') m3
      in call_success (options req) m4)"


text \<open>
  \<^verbatim>\<open>createInstance\<close>. The \<^verbatim>\<open>try\<close> block spans everything after \<^verbatim>\<open>options = options || {}\<close>,
  so whatever \<^verbatim>\<open>toJSON\<close> or a dataview's filter throws ends in the \<^verbatim>\<open>catch\<close> branch.
  That branch begins by reading \<^verbatim>\<open>e.message\<close> of the value caught: when the value is
  \<^verbatim>\<open>undefined\<close> or \<^verbatim>\<open>null\<close> the read itself throws, nothing else of the branch runs and
  the \<^verbatim>\<open>TypeError\<close> leaves \<^verbatim>\<open>createInstance\<close>. The calls on the logger, the model
  updater, the client and the caller's callbacks are recorded as events and taken to
  return normally.
\<close>

definition empty_options :: request_options where
  "empty_options = \<lparr>success = None, error = None, sourceId = Undefined, forceFetch = Undefined\<rparr>"

definition ceiling_message :: string where
  "ceiling_message =
     ''Maximum number of subsequent equal requests to the Maps API reached (''
       @ string_of_nat MAP_INSTANTIATION_LIMIT @ ''):''"

definition createInstance ::
  "(jsval \<Rightarrow> jsval \<Rightarrow> string) \<Rightarrow> exn + jsval \<Rightarrow> dataview list
     \<Rightarrow> request_options option \<Rightarrow> bool \<Rightarrow> windshaft_map \<Rightarrow> js_error + windshaft_map" where
  "createInstance fp toJSON dataviews options_arg includeFilters m =
     (let opts = (case options_arg of None \<Rightarrow> empty_options | Some given \<Rightarrow> given)
      in case build_request toJSON dataviews opts includeFilters m of
           Inr req \<Rightarrow>
             if canPerformRequest fp m req then Inr (performRequest req m)
             else Inr (call_error opts
                         (emit (LogError [JStr ceiling_message, payload req, params req]) m))
         | Inl (Exn e) \<Rightarrow>
             (case get_prop e ''message'' of
                Inl escaping \<Rightarrow> Inl escaping
              | Inr message \<Rightarrow>
                  Inr (call_error opts
                         (emit (LogError [message])
                            (emit (SetErrors [WindshaftError (JObj [(''message'', message)])]) m)))))"

subsection \<open>Resolving the host\<close>

text \<open>
  \<^verbatim>\<open>this.get('urlTemplate').indexOf('https') === 0\<close>. Strings and arrays have an
  \<^verbatim>\<open>indexOf\<close>; on anything else the call throws.
\<close>

definition useHTTPS :: "windshaft_map \<Rightarrow> js_error + bool" where
  "useHTTPS m =
     (case get m ''urlTemplate'' of
        JStr t \<Rightarrow> Inr (indexOf t ''https'' = 0)
      | JArr xs \<Rightarrow> Inr (case xs of [] \<Rightarrow> False | x # rest \<Rightarrow> strict_equals (JStr ''https'') x)
      | _ \<Rightarrow> Inl TypeError)"



definition getSupportedSubdomains :: "windshaft_map \<Rightarrow> js_error + jsval" where
  "getSupportedSubdomains m =
     (case useHTTPS m of
        Inl e \<Rightarrow> Inl e
      | Inr https \<Rightarrow>
          if \<not> https then Inr (JArr [JStr ''0'', JStr ''1'', JStr ''2'', JStr ''3''])
          else Inr (JArr [JStr []]))"

subsection \<open>Reading the stored metadata\<close>

text \<open>\<^verbatim>\<open>(this.get('metadata') && this.get('metadata').name) || []\<close>\<close>

definition metadata_part :: "windshaft_map \<Rightarrow> string \<Rightarrow> js_error + jsval" where
  "metadata_part m name =
     (let md = get m ''metadata''
      in if truthy md
         then (case get_prop md name of
                 Inl e \<Rightarrow> Inl e
               | Inr part \<Rightarrow> Inr (js_or part (JArr [])))
         else Inr (js_or md (JArr [])))"

definition getLayers :: "windshaft_map \<Rightarrow> js_error + jsval" where
  "getLayers m = metadata_part m ''layers''"



text \<open>
  \<^verbatim>\<open>layers[layerIndex]\<close> is only tested and asked for its \<^verbatim>\<open>meta\<close>. An inherited member
  has none, so with it the result is the empty object, as it is when the read finds
  nothing: own properties decide the result.
\<close>

definition getLayerMetadata :: "windshaft_map \<Rightarrow> jsval \<Rightarrow> js_error + jsval" where
  "getLayerMetadata m layerIndex =
     (case getLayers m of
        Inl e \<Rightarrow> Inl e
      | Inr layers \<Rightarrow>
          if \<not> truthy layers then Inr (JObj [])
          else (case get_member layers layerIndex of
                  Inl e \<Rightarrow> Inl e
                | Inr layer \<Rightarrow>
                    if \<not> truthy layer then Inr (JObj [])
                    else (case get_prop layer ''meta'' of
                            Inl e \<Rightarrow> Inl e
                          | Inr meta \<Rightarrow> Inr (js_or meta (JObj [])))))"







section \<open>Example states\<close>

text \<open>A fingerprint function, a caller's options, a payload and the request built from them.\<close>

definition example_fp :: "jsval \<Rightarrow> jsval \<Rightarrow> string" where
  "example_fp pl ps = to_string pl @ ''|'' @ to_string ps"

definition example_options :: request_options where
  "example_options =
     \<lparr>success = Some 1, error = Some 2, sourceId = JStr ''a0'', forceFetch = JBool False\<rparr>"

definition example_payload :: jsval where
  "example_payload = JStr ''{layers:[]}''"

definition example_request :: request where
  "example_request =
     \<lparr>payload = example_payload, params = JObj [(''stat_tag'', Undefined)], options = example_options\<rparr>"

text \<open>Two backend responses; the later one carries no CDN host map.\<close>

definition example_response :: "(string \<times> jsval) list" where
  "example_response =
     [(''layergroupid'', JStr ''abc''),
      (''cdn_url'', JObj [(''http'', JStr ''cdn.example.com'')]),
      (''metadata'',
       JObj [(''layers'', JArr [JObj [(''type'', JStr ''mapnik''),
                                      (''meta'', JObj [(''cartocss'', JStr ''#l{}'')])]])])]"


text \<open>
  A model as \<open>initialize\<close> leaves it, one whose template is secure, and the model after
  three identical requests have each been sent and answered.
\<close>

definition fresh_map :: windshaft_map where
  "fresh_map =
     \<lparr>attributes = [(''urlTemplate'', JStr ''http://{user}.example.com''),
                    (''userName'', JStr ''acme'')],
      requestTracker = new_tracker MAP_INSTANTIATION_LIMIT 8,
      effects = []\<rparr>"

definition secure_map :: windshaft_map where
  "secure_map =
     fresh_map\<lparr>attributes := [(''urlTemplate'', JStr ''https://{user}.example.com''),
                                (''userName'', JStr ''acme'')]\<rparr>"

definition attempt :: "windshaft_map \<Rightarrow> windshaft_map" where
  "attempt m =
     (case createInstance example_fp (Inr example_payload) [] (Some example_options) False m of
        Inr sent \<Rightarrow> on_success example_fp example_request (JObj example_response) sent
      | Inl e \<Rightarrow> m)"

definition ceiling_map :: windshaft_map where
  "ceiling_map = (attempt (attempt (attempt fresh_map)))\<lparr>effects := []\<rparr>"


text \<open>Models with credentials: an API key and an auth token, and an auth token alone.\<close>

definition keyed_map :: windshaft_map where
  "keyed_map =
     fresh_map\<lparr>attributes := [(''statTag'', JStr ''tag-1''), (''apiKey'', JStr ''k3y''),
                                (''authToken'', JArr [JStr ''t0ken''])]\<rparr>"

definition token_map :: windshaft_map where
  "token_map =
     fresh_map\<lparr>attributes := [(''statTag'', JStr ''tag-1''),
                                (''authToken'', JArr [JStr ''t0ken''])]\<rparr>"

text \<open>Error payloads of the backend, and a dataview whose filter fails to serialize.\<close>

definition contextual_error :: jsval where
  "contextual_error =
     JObj [(''type'', JStr ''layer''), (''message'', JStr ''column does not exist''),
           (''layer'', JObj [(''index'', JNum 0)])]"


definition failing_dataview :: dataview where
  "failing_dataview =
     \<lparr>dataview_filter = Some \<lparr>filter_isEmpty = Inr False,
                               filter_toJSON = Inl (new_Error ''filter is broken'')\<rparr>\<rparr>"







subsection \<open>Reading a request and a trace\<close>

text \<open>The value of a request parameter, if the params object has it.\<close>

definition param :: "request \<Rightarrow> string \<Rightarrow> jsval option" where
  "param req name = (case params req of JObj ps \<Rightarrow> map_of ps name | _ \<Rightarrow> None)"

text \<open>The events a step added, and those of them that are calls of a caller's callback.\<close>

definition new_effects :: "windshaft_map \<Rightarrow> windshaft_map \<Rightarrow> event list" where
  "new_effects m m' = drop (length (effects m)) (effects m')"

definition is_callback :: "event \<Rightarrow> bool" where
  "is_callback ev = (case ev of CallSuccess cb \<Rightarrow> True | CallError cb \<Rightarrow> True | _ \<Rightarrow> False)"

section \<open>Basic facts\<close>


lemma map_of_put: "map_of (put k v kvs) k' = (if k' = k then Some v else map_of kvs k')"
  by (induction kvs) auto

lemma us_values_JArr: "us_values (JArr xs) = xs"
  by (simp add: us_values_def us_entries_def)

lemma split_first_Nil_iff: "(\<exists>post. split_first pat s = Some ([], post)) \<longleftrightarrow> prefix pat s"
  by (cases s) (auto split: option.splits)

lemma indexOf_zero_iff: "indexOf s pat = 0 \<longleftrightarrow> prefix pat s"
proof -
  have "indexOf s pat = 0 \<longleftrightarrow> (\<exists>post. split_first pat s = Some ([], post))"
    by (auto simp: indexOf_def split: option.splits)
  then show ?thesis by (simp add: split_first_Nil_iff)
qed






text \<open>The fresh model of the examples is what \<open>initialize\<close> makes of a complete set of options.\<close>

lemma initialize_fresh_map:
  "initialize 8 []
     \<lparr>client = Some \<lparr>urlTemplate = JStr ''http://{user}.example.com'', userName = JStr ''acme''\<rparr>,
      layersCollection = True, dataviewsCollection = True, analysisCollection = True,
      modelUpdater = True\<rparr>
   = Inr fresh_map"
  by (simp add: initialize_def fresh_map_def)

text \<open>What \<open>createInstance\<close> does in each of its three branches.\<close>

lemma createInstance_sent:
  assumes "build_request toJSON dataviews opts includeFilters m = Inr req"
      and "canPerformRequest fp m req"
  shows "createInstance fp toJSON dataviews (Some opts) includeFilters m = Inr (performRequest req m)"
  using assms by (simp add: createInstance_def)

lemma createInstance_rejected:
  assumes "build_request toJSON dataviews opts includeFilters m = Inr req"
      and "\<not> canPerformRequest fp m req"
  shows "createInstance fp toJSON dataviews (Some opts) includeFilters m =
           Inr (call_error opts (emit (LogError [JStr ceiling_message, payload req, params req]) m))"
  using assms by (simp add: createInstance_def)

lemma createInstance_caught:
  assumes "build_request toJSON dataviews opts includeFilters m = Inl (Exn thrown)"
      and "thrown \<noteq> Undefined" and "thrown \<noteq> Null"
  shows "createInstance fp toJSON dataviews (Some opts) includeFilters m =
           Inr (call_error opts
                  (emit (LogError [member thrown (JStr ''message'')])
                     (emit (SetErrors
                              [WindshaftError (JObj [(''message'', member thrown (JStr ''message''))])])
                        m)))"
  using assms by (simp add: createInstance_def get_prop_def get_member_def)

text \<open>
  A thrown \<^verbatim>\<open>undefined\<close> or \<^verbatim>\<open>null\<close> is not reported at all: the \<^verbatim>\<open>catch\<close> branch fails
  on its first read and the failure leaves \<open>createInstance\<close>.
\<close>

lemma createInstance_escapes:
  assumes "build_request toJSON dataviews opts includeFilters m = Inl (Exn thrown)"
      and "thrown = Undefined \<or> thrown = Null"
  shows "createInstance fp toJSON dataviews (Some opts) includeFilters m = Inl TypeError"
  using assms by (auto simp: createInstance_def get_prop_def get_member_def)

subsection \<open>Effects and fields of the small steps\<close>

lemma effects_emit [simp]: "effects (emit e m) = effects m @ [e]"
  by (simp add: emit_def)

lemma requestTracker_emit [simp]: "requestTracker (emit e m) = requestTracker m"
  by (simp add: emit_def)

lemma attributes_emit [simp]: "attributes (emit e m) = attributes m"
  by (simp add: emit_def)

lemma effects_call_error:
  "effects (call_error opts m) =
     effects m @ (case error opts of None \<Rightarrow> [] | Some cb \<Rightarrow> [CallError cb])"
  by (simp add: call_error_def split: option.splits)


lemma requestTracker_call_error [simp]: "requestTracker (call_error opts m) = requestTracker m"
  by (simp add: call_error_def split: option.splits)

lemma requestTracker_call_success [simp]: "requestTracker (call_success opts m) = requestTracker m"
  by (simp add: call_success_def split: option.splits)

lemma attributes_call_error [simp]: "attributes (call_error opts m) = attributes m"
  by (simp add: call_error_def split: option.splits)

lemma attributes_call_success [simp]: "attributes (call_success opts m) = attributes m"
  by (simp add: call_success_def split: option.splits)

lemma attributes_trackRequest [simp]: "attributes (trackRequest fp req response m) = attributes m"
  by (simp add: trackRequest_def)

subsection \<open>The tracker under consecutive attempts\<close>

lemma find_map_same:
  "(\<And>x. P (g x) = P x) \<Longrightarrow> find P (map g xs) = map_option g (find P xs)"
  by (induction xs) auto

lemma find_append_None:
  "find P xs = None \<Longrightarrow> find P (xs @ ys) = find P ys"
  by (induction xs) (auto split: if_splits)

lemma find_None_absent:
  "f \<notin> set (map fingerprint rs) \<Longrightarrow> find (\<lambda>r. fingerprint r = f) rs = None"
  by (auto simp: find_None_iff)

lemma find_present:
  "f \<in> set (map fingerprint rs) \<Longrightarrow> \<exists>r. find (\<lambda>r. fingerprint r = f) rs = Some r"
  by (cases "find (\<lambda>r. fingerprint r = f) rs") (auto simp: find_None_iff)

lemma find_append_new:
  assumes "f \<notin> set (map fingerprint rs)" and "fingerprint new = f"
  shows "find (\<lambda>r. fingerprint r = f) (drop n rs @ [new]) = Some new"
proof -
  have "f \<notin> set (map fingerprint (drop n rs))"
    using assms(1) by (auto dest: in_set_dropD)
  then have "find (\<lambda>r. fingerprint r = f) (drop n rs) = None"
    by (rule find_None_absent)
  then show ?thesis using assms(2) by (simp add: find_append_None)
qed

lemma record_attempt_fields [simp]:
  "cap (record_attempt t f response) = cap t"
  "instantiationLimit (record_attempt t f response) = instantiationLimit t"
  by (simp_all add: record_attempt_def Let_def)

lemma record_attempt_bounded:
  assumes "length (records t) \<le> cap t"
  shows "length (records (record_attempt t f response)) \<le> cap t"
  using assms by (auto simp: record_attempt_def Let_def evict_def)

text \<open>
  While the tracker holds no more fingerprints than its bound allows and the bound is
  not zero, recording an attempt raises the count of its fingerprint by one.
\<close>

lemma occurrences_record_attempt:
  assumes "length (records t) \<le> cap t" and "0 < cap t"
  shows "occurrences (record_attempt t f response) f = Suc (occurrences t f)"
proof (cases "f \<in> set (map fingerprint (records t))")
  case True
  let ?g = "\<lambda>r. if fingerprint r = f
                 then r\<lparr>occurrenceCount := Suc (occurrenceCount r), lastResponse := response\<rparr>
                 else r"
  obtain r where r: "find (\<lambda>r. fingerprint r = f) (records t) = Some r"
    using find_present [OF True] by blast
  then have fr: "fingerprint r = f" by (auto simp: find_Some_iff)
  have "records (record_attempt t f response) = map ?g (records t)"
    using True assms(1) by (simp add: record_attempt_def Let_def evict_def)
  moreover have "find (\<lambda>r. fingerprint r = f) (map ?g (records t)) =
                 map_option ?g (find (\<lambda>r. fingerprint r = f) (records t))"
    by (rule find_map_same) simp
  ultimately show ?thesis using r fr by (simp add: occurrences_def)
next
  case False
  let ?new = "\<lparr>fingerprint = f, occurrenceCount = 1, lastResponse = response\<rparr>"
  let ?n = "length (records t) + 1 - cap t"
  have "?n \<le> length (records t)" using assms(2) by simp
  then have "records (record_attempt t f response) = drop ?n (records t) @ [?new]"
    using False by (simp add: record_attempt_def Let_def evict_def)
  moreover have "find (\<lambda>r. fingerprint r = f) (drop ?n (records t) @ [?new]) = Some ?new"
    by (rule find_append_new [OF False]) simp
  moreover have "occurrences t f = 0"
    using find_None_absent [OF False] by (simp add: occurrences_def)
  ultimately show ?thesis by (simp add: occurrences_def)
qed

lemma occurrences_after_attempts:
  "length (records t) \<le> cap t \<Longrightarrow> 0 < cap t \<Longrightarrow>
   occurrences (foldl (\<lambda>t r. record_attempt t f r) t responses) f
     = occurrences t f + length responses"
proof (induction responses arbitrary: t)
  case Nil
  then show ?case by simp
next
  case (Cons r rs)
  have b: "length (records (record_attempt t f r)) \<le> cap (record_attempt t f r)"
    using Cons.prems by (simp add: record_attempt_bounded)
  have c: "0 < cap (record_attempt t f r)" using Cons.prems by simp
  from Cons.IH [OF b c] occurrences_record_attempt [OF Cons.prems] show ?case by simp
qed

lemma limit_after_attempts [simp]:
  "instantiationLimit (foldl (\<lambda>t r. record_attempt t f r) t responses) = instantiationLimit t"
  by (induction responses arbitrary: t) simp_all

text \<open>
  A new tracker with a bound that is not zero refuses a fingerprint once as many
  attempts as the limit have been recorded for it in a row.
\<close>

lemma ceiling_after_limit_attempts:
  assumes "0 < c" and "length responses = limit"
  shows "\<not> canBePerformed (foldl (\<lambda>t r. record_attempt t f r) (new_tracker limit c) responses) f"
proof -
  have "occurrences (foldl (\<lambda>t r. record_attempt t f r) (new_tracker limit c) responses) f
          = occurrences (new_tracker limit c) f + length responses"
    using assms(1) by (intro occurrences_after_attempts) (simp_all add: new_tracker_def)
  then show ?thesis
    using assms(2) by (simp add: canBePerformed_def new_tracker_def occurrences_def)
qed

section \<open>The instantiation ceiling\<close>

text \<open>
  Claim C1. Let \<open>F\<close> be any fingerprint of which the tracker has recorded exactly as
  many attempts as the instantiation limit (3 after \<open>initialize\<close>). Then
  \<open>canBePerformed\<close> is false for \<open>F\<close>, and a \<open>createInstance\<close> call whose request has
  fingerprint \<open>F\<close> is rejected locally: all it does is log the ceiling message and
  call the caller's error callback (when one was given), once; the client's
  \<^verbatim>\<open>instantiateMap\<close> is not called and the tracker is left as it was.
\<close>

theorem ceiling_rejects_locally:
  assumes "build_request toJSON dataviews opts includeFilters m = Inr req"
      and "fp (payload req) (params req) = F"
      and "occurrences (requestTracker m) F = instantiationLimit (requestTracker m)"
  shows "\<not> canBePerformed (requestTracker m) F \<and>
         (\<exists>m'. createInstance fp toJSON dataviews (Some opts) includeFilters m = Inr m' \<and>
               effects m' =
                 effects m @ [LogError [JStr ceiling_message, payload req, params req]]
                   @ (case error opts of None \<Rightarrow> [] | Some cb \<Rightarrow> [CallError cb]) \<and>
               (\<forall>p q. InstantiateMap p q \<notin> set (new_effects m m')) \<and>
               filter is_callback (new_effects m m') =
                 (case error opts of None \<Rightarrow> [] | Some cb \<Rightarrow> [CallError cb]) \<and>
               requestTracker m' = requestTracker m)"
proof -
  have no: "\<not> canBePerformed (requestTracker m) F"
    using assms(3) by (simp add: canBePerformed_def)
  then have "\<not> canPerformRequest fp m req"
    using assms(2) by (simp add: canPerformRequest_def)
  from createInstance_rejected [OF assms(1) this] no show ?thesis
    by (auto simp: effects_call_error new_effects_def is_callback_def split: option.splits)
qed

theorem ceiling_rejects_locally_witness:
  "build_request (Inr example_payload) [] example_options False ceiling_map = Inr example_request \<and>
   occurrences (requestTracker ceiling_map)
     (example_fp example_payload (JObj [(''stat_tag'', Undefined)])) = 3 \<and>
   instantiationLimit (requestTracker ceiling_map) = 3 \<and>
   \<not> canBePerformed (requestTracker ceiling_map)
       (example_fp example_payload (JObj [(''stat_tag'', Undefined)])) \<and>
   (\<exists>m'. createInstance example_fp (Inr example_payload) [] (Some example_options) False ceiling_map
           = Inr m' \<and>
         effects m' =
           [LogError [JStr ceiling_message, example_payload, JObj [(''stat_tag'', Undefined)]],
            CallError 2] \<and>
         requestTracker m' = requestTracker ceiling_map)"
proof -
  have b: "build_request (Inr example_payload) [] example_options False ceiling_map = Inr example_request"
    by code_simp
  have f: "example_fp (payload example_request) (params example_request) =
             example_fp example_payload (JObj [(''stat_tag'', Undefined)])"
    by (simp add: example_request_def)
  have o: "occurrences (requestTracker ceiling_map)
             (example_fp example_payload (JObj [(''stat_tag'', Undefined)])) = 3"
    by code_simp
  have l: "instantiationLimit (requestTracker ceiling_map) = 3"
    by code_simp
  have e: "effects ceiling_map = []"
    by (simp add: ceiling_map_def)
  from ceiling_rejects_locally [where fp = example_fp, OF b f] o l e b
  show ?thesis
    by (auto simp: example_request_def example_options_def)
qed

section \<open>Protocol and subhosts\<close>

text \<open>
  Claim C6. Whatever URL template \<open>t\<close> is stored, the protocol is https exactly when
  the text of \<open>t\<close> begins with \<^verbatim>\<open>https\<close>; nothing else of the state, the CDN host map
  included, is looked at. \<open>getSupportedSubdomains\<close> returns the four labels
  \<^verbatim>\<open>"0"\<close>, \<^verbatim>\<open>"1"\<close>, \<^verbatim>\<open>"2"\<close>, \<^verbatim>\<open>"3"\<close> for http and the single empty label for https.
\<close>

theorem protocol_and_subdomains:
  assumes "get m ''urlTemplate'' = JStr t"
  shows "useHTTPS m = Inr (prefix ''https'' t) \<and>
         getSupportedSubdomains m =
           Inr (if prefix ''https'' t then JArr [JStr []]
                else JArr [JStr ''0'', JStr ''1'', JStr ''2'', JStr ''3''])"
  using assms by (simp add: useHTTPS_def getSupportedSubdomains_def indexOf_zero_iff)

theorem protocol_and_subdomains_witness:
  "get fresh_map ''urlTemplate'' = JStr ''http://{user}.example.com'' \<and>
   useHTTPS fresh_map = Inr False \<and>
   getSupportedSubdomains fresh_map = Inr (JArr [JStr ''0'', JStr ''1'', JStr ''2'', JStr ''3'']) \<and>
   get secure_map ''urlTemplate'' = JStr ''https://{user}.example.com'' \<and>
   useHTTPS secure_map = Inr True \<and>
   getSupportedSubdomains secure_map = Inr (JArr [JStr []])"
proof -
  have h: "get fresh_map ''urlTemplate'' = JStr ''http://{user}.example.com''"
    by (simp add: fresh_map_def get_def lookup_def)
  have s: "get secure_map ''urlTemplate'' = JStr ''https://{user}.example.com''"
    by (simp add: secure_map_def get_def lookup_def)
  from protocol_and_subdomains [OF h] protocol_and_subdomains [OF s] h s show ?thesis
    by simp
qed

section \<open>Failures of \<^verbatim>\<open>createInstance\<close>\<close>





text \<open>
  Claim C3, as amended. When building the payload or the params throws a value that is
  not \<^verbatim>\<open>undefined\<close> or \<^verbatim>\<open>null\<close>, the exception is caught and wrapped into exactly one
  \<^verbatim>\<open>WindshaftError\<close> carrying its message, which goes to \<^verbatim>\<open>setErrors\<close>; the message is
  logged; the caller's error callback (when one was given) is called exactly once and
  no other callback is. The tracker and the attributes are left as they were: the
  failed call is not recorded as an attempt.
\<close>

theorem build_failure_reported:
  assumes "build_request toJSON dataviews opts includeFilters m = Inl (Exn thrown)"
      and "thrown \<noteq> Undefined" and "thrown \<noteq> Null"
  shows "\<exists>m'. createInstance fp toJSON dataviews (Some opts) includeFilters m = Inr m' \<and>
              effects m' =
                effects m @ [SetErrors [WindshaftError
                                          (JObj [(''message'', member thrown (JStr ''message''))])],
                             LogError [member thrown (JStr ''message'')]]
                  @ (case error opts of None \<Rightarrow> [] | Some cb \<Rightarrow> [CallError cb]) \<and>
              filter is_callback (new_effects m m') =
                (case error opts of None \<Rightarrow> [] | Some cb \<Rightarrow> [CallError cb]) \<and>
              requestTracker m' = requestTracker m \<and>
              attributes m' = attributes m"
  using createInstance_caught [OF assms, of fp]
  by (simp add: effects_call_error new_effects_def is_callback_def split: option.splits)

theorem build_failure_reported_witness:
  "build_request base_toJSON [] example_options False fresh_map =
     Inl (new_Error ''Subclasses of windshaft/map-base must implement .toJSON'') \<and>
   (\<exists>m'. createInstance example_fp base_toJSON [] (Some example_options) False fresh_map = Inr m' \<and>
         effects m' =
           [SetErrors [WindshaftError
              (JObj [(''message'', JStr ''Subclasses of windshaft/map-base must implement .toJSON'')])],
            LogError [JStr ''Subclasses of windshaft/map-base must implement .toJSON''],
            CallError 2] \<and>
         requestTracker m' = requestTracker fresh_map) \<and>
   build_request (Inr example_payload) [failing_dataview] example_options True fresh_map =
     Inl (new_Error ''filter is broken'') \<and>
   (\<exists>m'. createInstance example_fp (Inr example_payload) [failing_dataview] (Some example_options)
           True fresh_map = Inr m' \<and>
         effects m' =
           [SetErrors [WindshaftError (JObj [(''message'', JStr ''filter is broken'')])],
            LogError [JStr ''filter is broken''],
            CallError 2] \<and>
         requestTracker m' = requestTracker fresh_map)"
proof -
  let ?base = "JObj [(''message'', JStr ''Subclasses of windshaft/map-base must implement .toJSON'')]"
  let ?broken = "JObj [(''message'', JStr ''filter is broken'')]"
  have b: "build_request base_toJSON [] example_options False fresh_map = Inl (Exn ?base)"
    by code_simp
  have f: "build_request (Inr example_payload) [failing_dataview] example_options True fresh_map =
             Inl (Exn ?broken)"
    by code_simp
  have mb: "member ?base (JStr ''message'') =
              JStr ''Subclasses of windshaft/map-base must implement .toJSON''"
    by (simp add: lookup_def)
  have mf: "member ?broken (JStr ''message'') = JStr ''filter is broken''"
    by (simp add: lookup_def)
  have e: "effects fresh_map = []" by (simp add: fresh_map_def)
  from build_failure_reported [OF b, of example_fp] build_failure_reported [OF f, of example_fp]
       b f mb mf e
  show ?thesis by (auto simp: example_options_def new_Error_def)
qed

text \<open>
  After a failed build the model is as it was but for the three events, and its
  tracker, like that of the fresh model, holds no record at all. And a \<^verbatim>\<open>toJSON\<close> that
  throws \<^verbatim>\<open>null\<close> is not reported either.
\<close>

theorem build_failure_not_tracked:
  "createInstance example_fp base_toJSON [] (Some example_options) False fresh_map =
     Inr (fresh_map\<lparr>effects :=
            [SetErrors [WindshaftError
               (JObj [(''message'', JStr ''Subclasses of windshaft/map-base must implement .toJSON'')])],
             LogError [JStr ''Subclasses of windshaft/map-base must implement .toJSON''],
             CallError 2]\<rparr>) \<and>
   map_sum id (records \<circ> requestTracker)
     (createInstance example_fp base_toJSON [] (Some example_options) False fresh_map) = Inr [] \<and>
   createInstance example_fp (Inl (Exn Null)) [] (Some example_options) False fresh_map =
     Inl TypeError"
  by code_simp

section \<open>A successful instantiation\<close>

lemma map_of_foldl_put:
  "distinct (map fst kvs) \<Longrightarrow>
   map_of (foldl (\<lambda>acc (k, v). put k v acc) dst kvs) k =
     (case map_of kvs k of Some v \<Rightarrow> Some v | None \<Rightarrow> map_of dst k)"
proof (induction kvs arbitrary: dst)
  case Nil
  then show ?case by simp
next
  case (Cons kv kvs)
  obtain k0 v0 where kv: "kv = (k0, v0)" by (cases kv)
  from Cons.prems kv have d: "distinct (map fst kvs)" and n: "k0 \<notin> fst ` set kvs" by auto
  from n have "map_of kvs k0 = None" by (simp add: map_of_eq_None_iff)
  with Cons.IH [OF d, of "put k0 v0 dst"] kv show ?case
    by (auto simp: map_of_put split: option.splits)
qed

lemma get_set_model:
  "distinct (map fst r) \<Longrightarrow>
   get (set_model (JObj r) m) k = (case map_of r k of Some v \<Rightarrow> v | None \<Rightarrow> get m k)"
  by (simp add: get_def set_model_def emit_def set_attributes_def us_extend_def lookup_def
      map_of_foldl_put split: option.splits)

lemma get_on_success:
  assumes "distinct (map fst r)"
  shows "get (on_success fp req (JObj r) m) k =
           (case map_of r k of Some v \<Rightarrow> v | None \<Rightarrow> get m k)"
proof -
  have "get (on_success fp req (JObj r) m) k =
          get (set_model (JObj r) (trackRequest fp req (JObj r) m)) k"
    by (simp add: on_success_def Let_def get_def)
  also have "\<dots> = (case map_of r k of Some v \<Rightarrow> v
                     | None \<Rightarrow> get (trackRequest fp req (JObj r) m) k)"
    by (rule get_set_model [OF assms])
  finally show ?thesis by (simp add: get_def split: option.splits)
qed




section \<open>Normalizing the backend's errors\<close>

text \<open>
  Claim C5. Of a response object, \<open>getErrorsFromResponse\<close> makes: one \<^verbatim>\<open>WindshaftError\<close>
  per entry of its \<^verbatim>\<open>errors_with_context\<close> list, in order, each built from the whole
  entry; without that field, exactly one \<^verbatim>\<open>WindshaftError\<close> whose message is the first
  element of its \<^verbatim>\<open>errors\<close> list (\<^verbatim>\<open>undefined\<close> if the list is empty), the other
  elements being dropped; without either, the empty list. The result is a function of
  the response alone.
\<close>

theorem errors_from_response:
  "(lookup resp ''errors_with_context'' = JArr entries \<longrightarrow>
      getErrorsFromResponse (JObj resp) = Inr (map WindshaftError entries)) \<and>
   (\<not> truthy (lookup resp ''errors_with_context'') \<and> lookup resp ''errors'' = JArr errs \<longrightarrow>
      getErrorsFromResponse (JObj resp) =
        Inr [WindshaftError
               (JObj [(''message'', case errs of [] \<Rightarrow> Undefined | first # rest \<Rightarrow> first)])]) \<and>
   (\<not> truthy (lookup resp ''errors_with_context'') \<and> \<not> truthy (lookup resp ''errors'') \<longrightarrow>
      getErrorsFromResponse (JObj resp) = Inr [])"
  by (auto simp: getErrorsFromResponse_def get_prop_def get_member_def us_values_JArr
      nth_or_undefined_def split: list.splits)

theorem errors_from_response_witness:
  "getErrorsFromResponse
     (JObj [(''errors_with_context'', JArr [contextual_error, JObj [(''message'', JStr ''b'')]])])
     = Inr [WindshaftError contextual_error, WindshaftError (JObj [(''message'', JStr ''b'')])] \<and>
   getErrorsFromResponse (JObj [(''errors'', JArr [JStr ''a'', JStr ''b''])])
     = Inr [WindshaftError (JObj [(''message'', JStr ''a'')])] \<and>
   getErrorsFromResponse (JObj []) = Inr []"
  using errors_from_response
          [of "[(''errors_with_context'', JArr [contextual_error, JObj [(''message'', JStr ''b'')]])]"
              "[contextual_error, JObj [(''message'', JStr ''b'')]]"]
        errors_from_response [of "[(''errors'', JArr [JStr ''a'', JStr ''b''])]" _ "[JStr ''a'', JStr ''b'']"]
        errors_from_response [of "[]"]
  by (simp add: lookup_def)

section \<open>The base URL\<close>




section \<open>The request params\<close>

text \<open>
  Claim C8. The params of the request that \<open>createInstance\<close> builds hold the stat tag
  and at most one credential: the API key when one is set, whatever the auth token;
  otherwise the auth token when one is set; never both.
\<close>

theorem request_params:
  assumes "build_request toJSON dataviews opts includeFilters m = Inr req"
  shows "param req ''stat_tag'' = Some (get m ''statTag'') \<and>
         param req ''api_key'' =
           (if truthy (get m ''apiKey'') then Some (get m ''apiKey'') else None) \<and>
         param req ''auth_token'' =
           (if \<not> truthy (get m ''apiKey'') \<and> truthy (get m ''authToken'')
            then Some (get m ''authToken'') else None) \<and>
         (param req ''api_key'' = None \<or> param req ''auth_token'' = None)"
  using assms
  by (auto simp: build_request_def getParams_def map_of_put Let_def param_def
      split: sum.splits if_splits)

theorem request_params_witness:
  "build_request (Inr example_payload) [] example_options False keyed_map =
     Inr \<lparr>payload = example_payload,
          params = JObj [(''stat_tag'', JStr ''tag-1''), (''api_key'', JStr ''k3y'')],
          options = example_options\<rparr> \<and>
   param \<lparr>payload = example_payload,
          params = JObj [(''stat_tag'', JStr ''tag-1''), (''api_key'', JStr ''k3y'')],
          options = example_options\<rparr> ''auth_token'' = None \<and>
   build_request (Inr example_payload) [] example_options False token_map =
     Inr \<lparr>payload = example_payload,
          params = JObj [(''stat_tag'', JStr ''tag-1''), (''auth_token'', JArr [JStr ''t0ken''])],
          options = example_options\<rparr> \<and>
   param \<lparr>payload = example_payload,
          params = JObj [(''stat_tag'', JStr ''tag-1''), (''auth_token'', JArr [JStr ''t0ken''])],
          options = example_options\<rparr> ''api_key'' = None"
proof -
  have k: "build_request (Inr example_payload) [] example_options False keyed_map =
     Inr \<lparr>payload = example_payload,
          params = JObj [(''stat_tag'', JStr ''tag-1''), (''api_key'', JStr ''k3y'')],
          options = example_options\<rparr>"
    by code_simp
  have t: "build_request (Inr example_payload) [] example_options False token_map =
     Inr \<lparr>payload = example_payload,
          params = JObj [(''stat_tag'', JStr ''tag-1''), (''auth_token'', JArr [JStr ''t0ken''])],
          options = example_options\<rparr>"
    by code_simp
  have a: "get keyed_map ''apiKey'' = JStr ''k3y''"
    by (simp add: keyed_map_def get_def lookup_def)
  have b: "get token_map ''apiKey'' = Undefined"
    by (simp add: token_map_def get_def lookup_def)
  from request_params [OF k] request_params [OF t] a b k t show ?thesis
    by simp
qed

section \<open>Reading the metadata\<close>







subsection \<open>Keys that are found nowhere\<close>












text \<open>
  Claim C9. After a successful instantiation whose response has, at index \<open>i\<close> of the
  layer list of its metadata, a layer with a metadata object, \<open>getLayerMetadata\<close> at
  \<open>i\<close> returns that very object.
\<close>

theorem layer_metadata_roundtrip:
  assumes "distinct (map fst r)"
      and "map_of r ''metadata'' = Some (JObj md)"
      and "lookup md ''layers'' = JArr layers"
      and "i < length layers"
      and "layers ! i = JObj layer"
      and "lookup layer ''meta'' = JObj meta"
  shows "getLayerMetadata (on_success fp req (JObj r) m) (JNum (int i)) = Inr (JObj meta)"
proof -
  have "get (on_success fp req (JObj r) m) ''metadata'' = JObj md"
    using assms(1,2) by (simp add: get_on_success)
  then have "getLayers (on_success fp req (JObj r) m) = Inr (JArr layers)"
    using assms(3)
    by (simp add: getLayers_def metadata_part_def get_prop_def get_member_def js_or_def)
  then show ?thesis
    using assms(4,5,6)
    by (simp add: getLayerMetadata_def get_member_def get_prop_def nth_or_undefined_def js_or_def)
qed

theorem layer_metadata_roundtrip_witness:
  "distinct (map fst example_response) \<and>
   getLayerMetadata (on_success example_fp example_request (JObj example_response) fresh_map) (JNum 0)
     = Inr (JObj [(''cartocss'', JStr ''#l{}'')])"
proof -
  have d: "distinct (map fst example_response)"
    by (simp add: example_response_def)
  have md: "map_of example_response ''metadata'' =
              Some (JObj [(''layers'', JArr [JObj [(''type'', JStr ''mapnik''),
                                      (''meta'', JObj [(''cartocss'', JStr ''#l{}'')])]])])"
    by (simp add: example_response_def)
  have ls: "lookup [(''layers'', JArr [JObj [(''type'', JStr ''mapnik''),
                                      (''meta'', JObj [(''cartocss'', JStr ''#l{}'')])]])] ''layers''
            = JArr [JObj [(''type'', JStr ''mapnik''), (''meta'', JObj [(''cartocss'', JStr ''#l{}'')])]]"
    by (simp add: lookup_def)
  have i: "(0::nat) < length [JObj [(''type'', JStr ''mapnik''),
                                    (''meta'', JObj [(''cartocss'', JStr ''#l{}'')])]]"
    by simp
  have l: "[JObj [(''type'', JStr ''mapnik''), (''meta'', JObj [(''cartocss'', JStr ''#l{}'')])]] ! 0
             = JObj [(''type'', JStr ''mapnik''), (''meta'', JObj [(''cartocss'', JStr ''#l{}'')])]"
    by simp
  have mt: "lookup [(''type'', JStr ''mapnik''), (''meta'', JObj [(''cartocss'', JStr ''#l{}'')])] ''meta''
             = JObj [(''cartocss'', JStr ''#l{}'')]"
    by (simp add: lookup_def)
  from layer_metadata_roundtrip [OF d md ls i l mt, of example_fp example_request fresh_map] d
  show ?thesis by simp
qed




end
